theory Spec2Isabelle
  imports Main "HOL-Library.Word"
begin

section \<open>The Hessian 1.0.2 deserialiser of mustaine (\<^verbatim>\<open>mustaine/parser.py\<close>)\<close>

text \<open>
  The parser is Python 2 code. A Python 2 \<^verbatim>\<open>str\<close> is a byte string, modelled as a
  \<^typ>\<open>string\<close> (a list of 8-bit characters). The stream is the list of bytes not yet
  read, with the behaviour of \<^verbatim>\<open>StringIO\<close> (the stream \<^verbatim>\<open>parse_string\<close> builds):
  \<^verbatim>\<open>read(n)\<close> hands out at most \<^verbatim>\<open>n\<close> bytes, fewer at the end of the data. Every
  function that reads takes the stream and returns the rest of it with its value.
\<close>

subsection \<open>Exceptions and results\<close>

text \<open>
  \<^verbatim>\<open>ParseError\<close> is the one exception class of the module; its instances differ
  by their message only. The kinds below are named as the specification names them, one
  per message of the source. The other constructors of \<open>error\<close> are the exceptions of
  Python itself that the parser lets escape.
\<close>

datatype parse_error =
    DuplicateEnvelopeHeader     \<comment> \<open>\<^verbatim>\<open>Encountered duplicate type header\<close>\<close>
  | UnsupportedVersion          \<comment> \<open>\<^verbatim>\<open>Encountered unrecognized call/reply version\<close>\<close>
  | InvalidMarker               \<comment> \<open>\<^verbatim>\<open>Invalid Hessian message marker\<close>\<close>
  | IllegalMethodOutsideCall    \<comment> \<open>\<^verbatim>\<open>Encountered illegal method name within reply\<close>\<close>
  | DuplicateMethodName         \<comment> \<open>\<^verbatim>\<open>Encountered duplicate method name definition\<close>\<close>
  | IllegalFaultOutsideReply    \<comment> \<open>\<^verbatim>\<open>Encountered illegal fault within call\<close>\<close>
  | IllegalExtraValue           \<comment> \<open>\<^verbatim>\<open>Encountered illegal extra object within reply\<close>\<close>
  | UnexpectedEndOfStream       \<comment> \<open>\<^verbatim>\<open>Encountered unexpected end of stream\<close>\<close>
  | UnknownMarker               \<comment> \<open>\<^verbatim>\<open>Unknown type marker\<close>\<close>
  | ExpectedTerminalChunk       \<comment> \<open>\<^verbatim>\<open>Expected terminal string segment\<close>\<close>
  | ExpectedString              \<comment> \<open>\<^verbatim>\<open>Expected string object while parsing Remote object URL\<close>\<close>

datatype error =
    ParseError parse_error
  | NotImplementedError         \<comment> \<open>raised for the tag \<^verbatim>\<open>R\<close>\<close>
  | StructError                 \<comment> \<open>\<^verbatim>\<open>struct.error\<close>: \<^verbatim>\<open>unpack\<close> on a string of the wrong length\<close>
  | TypeError
  | ValueError
  | UnicodeDecodeError
  | UnicodeEncodeError

text \<open>
  The value decoder is recursive over the stream it consumes, so the recursive functions
  carry a step budget; \<open>OutOfFuel\<close> is the budget running out, which is no behaviour of
  the source. \<open>Done\<close> is a normal return and \<open>Raise\<close> an exception.
\<close>

datatype 'a res = Done 'a | Raise error | OutOfFuel

definition bind :: "'a res \<Rightarrow> ('a \<Rightarrow> 'b res) \<Rightarrow> 'b res" where
  "bind m f = (case m of Done a \<Rightarrow> f a | Raise e \<Rightarrow> Raise e | OutOfFuel \<Rightarrow> OutOfFuel)"

definition is_parse_error :: "error \<Rightarrow> bool" where
  "is_parse_error e = (case e of ParseError k \<Rightarrow> True | _ \<Rightarrow> False)"

subsection \<open>Decoded values\<close>

text \<open>
  Text (\<^verbatim>\<open>unicode\<close>) is a list of code points. A float is carried as its IEEE-754 bit
  pattern. A \<^verbatim>\<open>datetime\<close> is the whole second of the epoch it denotes together with
  its microsecond field. A \<^verbatim>\<open>dict\<close> is the list of its item assignments in the order
  they were made (the dictionary proper is the last assignment to each key).
\<close>

text \<open>
  Modelled from the spec: the classes \<^verbatim>\<open>Call\<close>, \<^verbatim>\<open>Reply\<close>, \<^verbatim>\<open>Fault\<close>,
  \<^verbatim>\<open>Binary\<close>, \<^verbatim>\<open>Remote\<close> and \<^verbatim>\<open>Magic\<close> of \<^verbatim>\<open>mustaine.protocol\<close> are not
  among the sources. Following section 3 of the specification they are plain data
  carriers: a Call has headers, an optional method and a sequence of arguments, a Reply
  has headers and one value; a new Call has no method and no arguments, a new Reply has
  the value \<^verbatim>\<open>None\<close>; a Binary wraps its bytes, a Remote has an optional type and a
  url, a typed record (\<^verbatim>\<open>Magic\<close>) has a type name and fields, a Fault has the
  attributes assigned to it. As instances of plain classes all of them are true in a
  condition and hashable. The fields of a typed record are listed under the key value
  whose \<^verbatim>\<open>str()\<close> form the source uses as the field name.
\<close>

datatype pyval =
    PNone
  | PBool bool
  | PInt int
  | PLong int
  | PFloat "64 word"
  | PDatetime int int
  | PUnicode "nat list"
  | PBinary string
  | PRemote "string option" pyval
  | PList "pyval list"
  | PTuple "pyval list"
  | PDict "(pyval \<times> pyval) list"
  | PMagic string "(pyval \<times> pyval) list"
  | PFault "(string \<times> pyval) list"

text \<open>
  Modelled from the spec: the classes \<^verbatim>\<open>Call\<close> and \<^verbatim>\<open>Reply\<close> of
  \<^verbatim>\<open>mustaine.protocol\<close> (see above). \<^verbatim>\<open>isinstance(self._result, Call)\<close> is the case
  distinction on the constructor.
\<close>

datatype envelope =
    Call (headers: "(pyval \<times> pyval) list") (method_name: "string option") (args: "pyval list")
  | Reply (headers: "(pyval \<times> pyval) list") (reply_value: pyval)

definition new_Call :: envelope where
  "new_Call = Call [] None []"

definition new_Reply :: envelope where
  "new_Reply = Reply [] PNone"

text \<open>The truth value Python gives a decoded value in a condition.\<close>

fun truthy :: "pyval \<Rightarrow> bool" where
  "truthy PNone = False"
| "truthy (PBool b) = b"
| "truthy (PInt i) = (i \<noteq> 0)"
| "truthy (PLong i) = (i \<noteq> 0)"
| "truthy (PFloat w) = (w \<noteq> 0 \<and> w \<noteq> 0x8000000000000000)"
| "truthy (PDatetime secs us) = True"
| "truthy (PUnicode t) = (t \<noteq> [])"
| "truthy (PBinary b) = True"
| "truthy (PRemote t u) = True"
| "truthy (PList vs) = (vs \<noteq> [])"
| "truthy (PTuple vs) = (vs \<noteq> [])"
| "truthy (PDict kvs) = (kvs \<noteq> [])"
| "truthy (PMagic t kvs) = True"
| "truthy (PFault kvs) = True"

text \<open>
  The truth value of a variable that holds \<^verbatim>\<open>None\<close> or a \<^verbatim>\<open>str\<close> (the method of a
  Call, the \<^verbatim>\<open>cast\<close> of \<^verbatim>\<open>_read_map\<close>, the \<^verbatim>\<open>first\<close> of \<^verbatim>\<open>_read_keyval\<close>):
  \<^verbatim>\<open>None\<close> and the empty string are false.
\<close>

definition truthy_str :: "string option \<Rightarrow> bool" where
  "truthy_str m = (case m of None \<Rightarrow> False | Some name \<Rightarrow> name \<noteq> [])"

text \<open>Lists and dictionaries cannot be dictionary keys, nor can a tuple holding one.\<close>

fun hashable :: "pyval \<Rightarrow> bool" where
  "hashable (PList vs) = False"
| "hashable (PDict kvs) = False"
| "hashable (PTuple vs) = list_all hashable vs"
| "hashable v = True"

definition setitem :: "(pyval \<times> pyval) list \<Rightarrow> pyval \<Rightarrow> pyval \<Rightarrow> (pyval \<times> pyval) list res" where
  "setitem d k v = (if hashable k then Done (d @ [(k, v)]) else Raise TypeError)"

text \<open>
  \<^verbatim>\<open>str(key)\<close> as used for the field names of a typed record: it fails on text with a
  character outside ASCII and succeeds on everything else.
\<close>

definition str_ok :: "pyval \<Rightarrow> bool" where
  "str_ok k = (case k of PUnicode t \<Rightarrow> list_all (\<lambda>c. c < 128) t | _ \<Rightarrow> True)"

definition setitem_str :: "(pyval \<times> pyval) list \<Rightarrow> pyval \<Rightarrow> pyval \<Rightarrow> (pyval \<times> pyval) list res" where
  "setitem_str d k v = (if str_ok k then Done (d @ [(k, v)]) else Raise UnicodeEncodeError)"

text \<open>
  \<^verbatim>\<open>setattr(f, key, value)\<close>: the attribute name must be a string; text is accepted
  when it is ASCII.
\<close>

definition setattr :: "(string \<times> pyval) list \<Rightarrow> pyval \<Rightarrow> pyval \<Rightarrow> (string \<times> pyval) list res" where
  "setattr f key v =
     (case key of
        PUnicode t \<Rightarrow>
          if list_all (\<lambda>c. c < 128) t then Done (f @ [(map char_of t, v)])
          else Raise UnicodeEncodeError
      | _ \<Rightarrow> Raise TypeError)"

subsection \<open>Library functions: \<^verbatim>\<open>struct.unpack\<close>, \<^verbatim>\<open>str.lower\<close>, \<^verbatim>\<open>ord\<close>, UTF-8\<close>

definition be_uint :: "string \<Rightarrow> nat" where
  "be_uint bs = foldl (\<lambda>a b. a * 256 + of_char b) 0 bs"

definition be_sint :: "string \<Rightarrow> int" where
  "be_sint bs =
     (let u = int (be_uint bs); w = 8 * length bs
      in if u < 2 ^ (w - 1) then u else u - 2 ^ w)"

text \<open>\<^verbatim>\<open>unpack('>H', b)[0]\<close>, \<^verbatim>\<open>unpack('>l', b)[0]\<close>, \<^verbatim>\<open>unpack('>q', b)[0]\<close>, \<^verbatim>\<open>unpack('>d', b)[0]\<close>.\<close>

definition unpack_H :: "string \<Rightarrow> nat res" where
  "unpack_H b = (if length b \<noteq> 2 then Raise StructError else Done (be_uint b))"

definition unpack_l :: "string \<Rightarrow> int res" where
  "unpack_l b = (if length b \<noteq> 4 then Raise StructError else Done (be_sint b))"

definition unpack_q :: "string \<Rightarrow> int res" where
  "unpack_q b = (if length b \<noteq> 8 then Raise StructError else Done (be_sint b))"

definition unpack_d :: "string \<Rightarrow> 64 word res" where
  "unpack_d b = (if length b \<noteq> 8 then Raise StructError else Done (word_of_nat (be_uint b)))"

definition lower_char :: "char \<Rightarrow> char" where
  "lower_char c =
     (if (65::nat) \<le> of_char c \<and> of_char c \<le> (90::nat) then char_of (of_char c + (32::nat)) else c)"

definition lower :: "string \<Rightarrow> string" where
  "lower s = map lower_char s"

definition ord :: "string \<Rightarrow> nat res" where
  "ord b = (case b of [c] \<Rightarrow> Done (of_char c) | _ \<Rightarrow> Raise TypeError)"

text \<open>\<^verbatim>\<open>x in range(lo, hi)\<close>: the upper end is excluded.\<close>

definition in_range :: "nat \<Rightarrow> nat \<Rightarrow> nat \<Rightarrow> bool" where
  "in_range x lo hi = (lo \<le> x \<and> x < hi)"

definition is_cont :: "char \<Rightarrow> bool" where
  "is_cont b = ((128::nat) \<le> of_char b \<and> of_char b \<le> (191::nat))"

definition cont :: "char \<Rightarrow> nat" where
  "cont b = of_char b - 128"

text \<open>
  \<^verbatim>\<open>s.decode('utf-8')\<close> of Python 2.7: \<open>None\<close> stands for \<^verbatim>\<open>UnicodeDecodeError\<close>.
  Overlong forms and code points beyond U+10FFFF are rejected; surrogates are accepted.
\<close>

fun utf8_decode :: "string \<Rightarrow> nat list option" where
  "utf8_decode [] = Some []"
| "utf8_decode (b # bs) =
     (let c = (of_char b :: nat) in
      if c < 128 then map_option ((#) c) (utf8_decode bs)
      else if 194 \<le> c \<and> c \<le> 223 then
        (case bs of
           b1 # r \<Rightarrow>
             if is_cont b1
             then map_option ((#) ((c - 192) * 64 + cont b1)) (utf8_decode r)
             else None
         | _ \<Rightarrow> None)
      else if 224 \<le> c \<and> c \<le> 239 then
        (case bs of
           b1 # b2 # r \<Rightarrow>
             if is_cont b1 \<and> is_cont b2 \<and> \<not> (c = 224 \<and> (of_char b1 :: nat) < 160)
             then map_option ((#) ((c - 224) * 4096 + cont b1 * 64 + cont b2)) (utf8_decode r)
             else None
         | _ \<Rightarrow> None)
      else if 240 \<le> c \<and> c \<le> 244 then
        (case bs of
           b1 # b2 # b3 # r \<Rightarrow>
             if is_cont b1 \<and> is_cont b2 \<and> is_cont b3
                \<and> \<not> (c = 240 \<and> (of_char b1 :: nat) < 144)
                \<and> \<not> (c = 244 \<and> (of_char b1 :: nat) > 143)
             then map_option
                    ((#) ((c - 240) * 262144 + cont b1 * 4096 + cont b2 * 64 + cont b3))
                    (utf8_decode r)
             else None
         | _ \<Rightarrow> None)
      else None)"

definition decode_utf8 :: "string \<Rightarrow> nat list res" where
  "decode_utf8 s = (case utf8_decode s of Some t \<Rightarrow> Done t | None \<Rightarrow> Raise UnicodeDecodeError)"

text \<open>
  \<^verbatim>\<open>datetime.datetime.fromtimestamp(secs)\<close> for an integer \<^verbatim>\<open>secs\<close>: the datetime of
  that second, its microsecond field 0; \<^verbatim>\<open>ValueError\<close> outside the years 1 to 9999
  (the bounds are those of a local zone equal to UTC).
\<close>

definition fromtimestamp :: "int \<Rightarrow> pyval res" where
  "fromtimestamp secs =
     (if - 62135596800 \<le> secs \<and> secs \<le> 253402300799 then Done (PDatetime secs 0)
      else Raise ValueError)"

subsection \<open>\<^verbatim>\<open>Parser._read\<close>\<close>

text \<open>
  \<^verbatim>\<open>r = self._stream.read(n)\<close>, then \<^verbatim>\<open>ParseError\<close> when \<^verbatim>\<open>len(r) == 0\<close>.
  (\<^verbatim>\<open>StringIO.read\<close> raises no \<^verbatim>\<open>IOError\<close>.)
\<close>

definition read :: "nat \<Rightarrow> string \<Rightarrow> (string \<times> string) res" where
  "read n s =
     (let r = take n s in
      if length r = 0 then Raise (ParseError UnexpectedEndOfStream) else Done (r, drop n s))"

subsection \<open>\<^verbatim>\<open>Parser._read_date\<close>, \<^verbatim>\<open>_read_string\<close>, \<^verbatim>\<open>_read_binary\<close>\<close>

text \<open>\<^verbatim>\<open>timestamp / 1000\<close> on Python 2 integers is floor division.\<close>

definition read_date :: "string \<Rightarrow> (pyval \<times> string) res" where
  "read_date s =
     bind (read 8 s) (\<lambda>(b, s1).
     bind (unpack_q b) (\<lambda>timestamp.
     bind (fromtimestamp (timestamp div 1000)) (\<lambda>d. Done (d, s1))))"

text \<open>The \<^verbatim>\<open>while len > 0\<close> loop of \<^verbatim>\<open>_read_string\<close>; \<open>bytes\<close> is the list it appends to.\<close>

fun read_chars :: "nat \<Rightarrow> string \<Rightarrow> string list \<Rightarrow> (string list \<times> string) res" where
  "read_chars 0 s bytes = Done (bytes, s)"
| "read_chars (Suc len) s bytes =
     bind (read 1 s) (\<lambda>(byte, s1).
     bind (ord byte) (\<lambda>c.
       if in_range c 0x00 0x7F then read_chars len s1 (bytes @ [byte])
       else if in_range c 0xC2 0xDF then
         bind (read 1 s1) (\<lambda>(more, s2). read_chars len s2 (bytes @ [byte @ more]))
       else if in_range c 0xE0 0xEF then
         bind (read 2 s1) (\<lambda>(more, s2). read_chars len s2 (bytes @ [byte @ more]))
       else if in_range c 0xF0 0xF4 then
         bind (read 3 s1) (\<lambda>(more, s2). read_chars len s2 (bytes @ [byte @ more]))
       else read_chars len s1 bytes))"

definition read_string :: "string \<Rightarrow> (nat list \<times> string) res" where
  "read_string s =
     bind (read 2 s) (\<lambda>(b, s1).
     bind (unpack_H b) (\<lambda>len.
     bind (read_chars len s1 []) (\<lambda>(bytes, s2).
     bind (decode_utf8 (concat bytes)) (\<lambda>t. Done (t, s2)))))"

definition read_binary :: "string \<Rightarrow> (pyval \<times> string) res" where
  "read_binary s =
     bind (read 2 s) (\<lambda>(b, s1).
     bind (unpack_H b) (\<lambda>len.
     bind (read len s1) (\<lambda>(r, s2). Done (PBinary r, s2))))"

subsection \<open>The value decoder: \<^verbatim>\<open>_read_object\<close> and the composite readers\<close>

text \<open>
  \<^verbatim>\<open>fragment + self._read_object(next)\<close> on text. The continuation is read with a
  string tag, so it is text whenever it returns.
\<close>

definition add_unicode :: "nat list \<Rightarrow> pyval \<Rightarrow> pyval res" where
  "add_unicode fragment v =
     (case v of PUnicode t \<Rightarrow> Done (PUnicode (fragment @ t)) | _ \<Rightarrow> Raise TypeError)"

text \<open>
  The first argument of each function is the step budget. \<open>read_members\<close> and
  \<open>read_fields\<close> are the \<^verbatim>\<open>while code != 'z'\<close> loops of \<^verbatim>\<open>_read_list\<close> and
  \<^verbatim>\<open>_read_map\<close>.

  In the branch for \<^verbatim>\<open>b\<close> the source calls \<^verbatim>\<open>self._read_binary(next)\<close>, a method
  that takes no argument beside \<^verbatim>\<open>self\<close>: the call raises \<^verbatim>\<open>TypeError\<close>. When the
  next tag does not match, the branch ends without a \<^verbatim>\<open>return\<close> and the function
  returns \<^verbatim>\<open>None\<close>.
\<close>

function read_object :: "nat \<Rightarrow> string \<Rightarrow> string \<Rightarrow> (pyval \<times> string) res"
  and read_remote :: "nat \<Rightarrow> string \<Rightarrow> (pyval \<times> string) res"
  and read_list :: "nat \<Rightarrow> string \<Rightarrow> (pyval \<times> string) res"
  and read_members :: "nat \<Rightarrow> string \<Rightarrow> string \<Rightarrow> pyval list \<Rightarrow> (pyval list \<times> string) res"
  and read_map :: "nat \<Rightarrow> string \<Rightarrow> (pyval \<times> string) res"
  and read_fields ::
    "nat \<Rightarrow> string option \<Rightarrow> string \<Rightarrow> string \<Rightarrow> (pyval \<times> pyval) list
      \<Rightarrow> ((pyval \<times> pyval) list \<times> string) res"
  and read_keyval :: "nat \<Rightarrow> string option \<Rightarrow> string \<Rightarrow> ((pyval \<times> pyval) \<times> string) res"
where
  "read_object 0 code s = OutOfFuel"
| "read_object (Suc n) code s =
     (if code = ''N'' then Done (PNone, s)
      else if code = ''T'' then Done (PBool True, s)
      else if code = ''F'' then Done (PBool False, s)
      else if code = ''I'' then
        bind (read 4 s) (\<lambda>(b, s1). bind (unpack_l b) (\<lambda>i. Done (PInt i, s1)))
      else if code = ''L'' then
        bind (read 8 s) (\<lambda>(b, s1). bind (unpack_q b) (\<lambda>i. Done (PLong i, s1)))
      else if code = ''D'' then
        bind (read 8 s) (\<lambda>(b, s1). bind (unpack_d b) (\<lambda>w. Done (PFloat w, s1)))
      else if code = ''d'' then read_date s
      else if code = ''s'' \<or> code = ''x'' then
        bind (read_string s) (\<lambda>(fragment, s1).
        bind (read 1 s1) (\<lambda>(next, s2).
          if lower next = code then
            bind (read_object n next s2) (\<lambda>(v, s3).
            bind (add_unicode fragment v) (\<lambda>r. Done (r, s3)))
          else Raise (ParseError ExpectedTerminalChunk)))
      else if code = ''S'' \<or> code = ''X'' then
        bind (read_string s) (\<lambda>(t, s1). Done (PUnicode t, s1))
      else if code = ''b'' then
        bind (read_binary s) (\<lambda>(fragment, s1).
        bind (read 1 s1) (\<lambda>(next, s2).
          if lower next = code then Raise TypeError
          else Done (PNone, s2)))
      else if code = ''B'' then read_binary s
      else if code = ''r'' then read_remote n s
      else if code = ''R'' then Raise NotImplementedError
      else if code = ''V'' then read_list n s
      else if code = ''M'' then read_map n s
      else Raise (ParseError UnknownMarker))"
| "read_remote 0 s = OutOfFuel"
| "read_remote (Suc n) s =
     bind (read 1 s) (\<lambda>(code, s1).
     bind (if code = ''t'' then
             bind (read 2 s1) (\<lambda>(b, s2).
             bind (unpack_H b) (\<lambda>len.
             bind (read len s2) (\<lambda>(type, s3).
             bind (read 1 s3) (\<lambda>(code', s4). Done (Some type, code', s4)))))
           else Done (None, code, s1)) (\<lambda>(type, code, s5).
       if code \<noteq> ''s'' \<and> code \<noteq> ''S'' then Raise (ParseError ExpectedString)
       else bind (read_object n code s5) (\<lambda>(url, s6). Done (PRemote type url, s6))))"
| "read_list 0 s = OutOfFuel"
| "read_list (Suc n) s =
     bind (read 1 s) (\<lambda>(code, s1).
     bind (if code = ''t'' then
             bind (read 2 s1) (\<lambda>(b, s2).
             bind (unpack_H b) (\<lambda>len.
             bind (read len s2) (\<lambda>(type, s3).
             read 1 s3)))
           else Done (code, s1)) (\<lambda>(code, s4).
     bind (if code = ''l'' then
             bind (read 4 s4) (\<lambda>(count, s5).
             bind (read 1 s5) (\<lambda>(code', s6). Done (PTuple, code', s6)))
           else Done (PList, code, s4)) (\<lambda>(cast, code, s7).
     bind (read_members n code s7 []) (\<lambda>(members, s8). Done (cast members, s8)))))"
| "read_members 0 code s members = OutOfFuel"
| "read_members (Suc n) code s members =
     (if code \<noteq> ''z'' then
        bind (read_object n code s) (\<lambda>(v, s1).
        bind (read 1 s1) (\<lambda>(code', s2).
        read_members n code' s2 (members @ [v])))
      else Done (members, s))"
| "read_map 0 s = OutOfFuel"
| "read_map (Suc n) s =
     bind (read 1 s) (\<lambda>(code, s1).
     bind (if code = ''t'' then
             bind (read 2 s1) (\<lambda>(b, s2).
             bind (unpack_H b) (\<lambda>len.
             bind (read len s2) (\<lambda>(type, s3).
             bind (read 1 s3) (\<lambda>(code', s4). Done (Some type, code', s4)))))
           else Done (None, code, s1)) (\<lambda>(cast, code, s5).
     bind (read_fields n cast code s5 []) (\<lambda>(fields, s6).
       case cast of
         Some type \<Rightarrow>
           if type \<noteq> [] then Done (PMagic type fields, s6) else Done (PDict fields, s6)
       | None \<Rightarrow> Done (PDict fields, s6))))"
| "read_fields 0 cast code s fields = OutOfFuel"
| "read_fields (Suc n) cast code s fields =
     (if code \<noteq> ''z'' then
        bind (read_keyval n (Some code) s) (\<lambda>((key, v), s1).
        bind (if truthy_str cast then setitem_str fields key v
              else setitem fields key v) (\<lambda>fields'.
        bind (read 1 s1) (\<lambda>(code', s2).
        read_fields n cast code' s2 fields')))
      else Done (fields, s))"
| "read_keyval 0 first s = OutOfFuel"
| "read_keyval (Suc n) first s =
     bind (case first of
             Some code \<Rightarrow> if code \<noteq> [] then Done (code, s) else read 1 s
           | None \<Rightarrow> read 1 s) (\<lambda>(code, s1).
     bind (read_object n code s1) (\<lambda>(key, s2).
     bind (read 1 s2) (\<lambda>(code', s3).
     bind (read_object n code' s3) (\<lambda>(v, s4). Done ((key, v), s4)))))"
  by pat_completeness auto

termination
  by (relation "measure (\<lambda>x. case x of
        Inl (Inl (n, _)) \<Rightarrow> n | Inl (Inr (Inl (n, _))) \<Rightarrow> n | Inl (Inr (Inr (n, _))) \<Rightarrow> n
      | Inr (Inl (Inl (n, _))) \<Rightarrow> n | Inr (Inl (Inr (n, _))) \<Rightarrow> n
      | Inr (Inr (Inl (n, _))) \<Rightarrow> n | Inr (Inr (Inr (n, _))) \<Rightarrow> n)") simp_all

text \<open>\<^verbatim>\<open>_read_fault\<close>: three key/value pairs, each set as an attribute of the Fault.\<close>

definition read_fault :: "nat \<Rightarrow> string \<Rightarrow> (pyval \<times> string) res" where
  "read_fault n s =
     bind (read_keyval n None s) (\<lambda>((k1, v1), s1).
     bind (setattr [] k1 v1) (\<lambda>f1.
     bind (read_keyval n None s1) (\<lambda>((k2, v2), s2).
     bind (setattr f1 k2 v2) (\<lambda>f2.
     bind (read_keyval n None s2) (\<lambda>((k3, v3), s3).
     bind (setattr f2 k3 v3) (\<lambda>f3. Done (PFault f3, s3)))))))"

subsection \<open>The envelope reader: \<^verbatim>\<open>Parser.parse_stream\<close>\<close>

text \<open>
  \<open>parse_loop\<close> is the \<^verbatim>\<open>while True\<close> loop; \<open>result\<close> is \<^verbatim>\<open>self._result\<close>, which is
  \<^verbatim>\<open>None\<close> or an envelope (an object, true in a condition).
\<close>

definition the_version :: string where
  "the_version = [CHR 0x01, CHR 0x00]"

fun parse_loop :: "nat \<Rightarrow> envelope option \<Rightarrow> string \<Rightarrow> envelope res" where
  "parse_loop 0 result s = OutOfFuel"
| "parse_loop (Suc n) result s =
     bind (read 1 s) (\<lambda>(code, s1).
       if code = ''c'' then
         (if result \<noteq> None then Raise (ParseError DuplicateEnvelopeHeader)
          else
            bind (read 2 s1) (\<lambda>(version, s2).
              if version \<noteq> the_version then Raise (ParseError UnsupportedVersion)
              else parse_loop n (Some new_Call) s2))
       else if code = ''r'' then
         (if result \<noteq> None then Raise (ParseError DuplicateEnvelopeHeader)
          else
            bind (read 2 s1) (\<lambda>(version, s2).
              if version \<noteq> the_version then Raise (ParseError UnsupportedVersion)
              else parse_loop n (Some new_Reply) s2))
       else
         (case result of
            None \<Rightarrow> Raise (ParseError InvalidMarker)
          | Some env \<Rightarrow>
              if code = ''H'' then
                bind (read_keyval n None s1) (\<lambda>((key, v), s2).
                bind (setitem (headers env) key v) (\<lambda>h.
                  parse_loop n
                    (Some (case env of Call _ m a \<Rightarrow> Call h m a | Reply _ x \<Rightarrow> Reply h x)) s2))
              else if code = ''m'' then
                (case env of
                   Reply h x \<Rightarrow> Raise (ParseError IllegalMethodOutsideCall)
                 | Call h m a \<Rightarrow>
                     if truthy_str m then Raise (ParseError DuplicateMethodName)
                     else
                       bind (read 2 s1) (\<lambda>(b, s2).
                       bind (unpack_H b) (\<lambda>len.
                       bind (read len s2) (\<lambda>(name, s3).
                         parse_loop n (Some (Call h (Some name) a)) s3))))
              else if code = ''f'' then
                (case env of
                   Call h m a \<Rightarrow> Raise (ParseError IllegalFaultOutsideReply)
                 | Reply h x \<Rightarrow>
                     if truthy x then Raise (ParseError IllegalExtraValue)
                     else
                       bind (read_fault n s1) (\<lambda>(f, s2).
                         parse_loop n (Some (Reply h f)) s2))
              else if code = ''z'' then Done env
              else
                (case env of
                   Call h m a \<Rightarrow>
                     bind (read_object n code s1) (\<lambda>(v, s2).
                       parse_loop n (Some (Call h m (a @ [v]))) s2)
                 | Reply h x \<Rightarrow>
                     if truthy x then Raise (ParseError IllegalExtraValue)
                     else
                       bind (read_object n code s1) (\<lambda>(v, s2).
                         parse_loop n (Some (Reply h v)) s2))))"

text \<open>\<^verbatim>\<open>parse_stream\<close> starts the loop with \<^verbatim>\<open>self._result = None\<close>.\<close>

definition parse_stream :: "nat \<Rightarrow> string \<Rightarrow> envelope res" where
  "parse_stream n stream = parse_loop n None stream"

subsection \<open>The list contract of the specification\<close>

text \<open>
  Section 4.5 of the specification: read values via the value decoder repeatedly until
  the tag \<^verbatim>\<open>z\<close>, and return them as an ordered sequence preserving read order. This
  is that sentence as a function of its own, with no accumulator: the value read first
  is the head of the result. \<open>code\<close> is the tag already read, \<open>s\<close> the stream after it.
\<close>

fun values_until_z :: "nat \<Rightarrow> string \<Rightarrow> string \<Rightarrow> (pyval list \<times> string) res" where
  "values_until_z 0 code s = OutOfFuel"
| "values_until_z (Suc n) code s =
     (if code = ''z'' then Done ([], s)
      else
        bind (read_object n code s) (\<lambda>(v, s1).
        bind (read 1 s1) (\<lambda>(code', s2).
        bind (values_until_z n code' s2) (\<lambda>(vs, s3). Done (v # vs, s3)))))"

subsection \<open>Step budgets and stream lengths\<close>

text \<open>
  Three notions used to show that the step budget is a device of the model only:
  \<open>shorter r s\<close>, a reader that returns leaves a stream no longer than \<open>s\<close>;
  \<open>finished r\<close>, the budget did not run out; \<open>le_res r r'\<close>, the result \<open>r'\<close>, obtained with
  a larger budget, agrees with \<open>r\<close> wherever \<open>r\<close> did not run out.
\<close>

definition shorter :: "('a \<times> string) res \<Rightarrow> string \<Rightarrow> bool" where
  "shorter r s = (case r of Done (a, s') \<Rightarrow> length s' \<le> length s | _ \<Rightarrow> True)"

definition finished :: "'a res \<Rightarrow> bool" where
  "finished r = (r \<noteq> OutOfFuel)"

definition le_res :: "'a res \<Rightarrow> 'a res \<Rightarrow> bool" where
  "le_res r r' = (r = OutOfFuel \<or> r = r')"

section \<open>Properties\<close>

subsection \<open>Results and reads\<close>

lemma bind_Done [simp]: "bind (Done a) f = f a"
  by (simp add: bind_def)

lemma bind_Raise [simp]: "bind (Raise e) f = Raise e"
  by (simp add: bind_def)

lemma bind_OutOfFuel [simp]: "bind OutOfFuel f = OutOfFuel"
  by (simp add: bind_def)

lemma bind_assoc: "bind (bind m f) g = bind m (\<lambda>x. bind (f x) g)"
  by (cases m) simp_all

lemma read_Nil [simp]: "read n [] = Raise (ParseError UnexpectedEndOfStream)"
  by (simp add: read_def)

lemma read_zero [simp]: "read 0 s = Raise (ParseError UnexpectedEndOfStream)"
  by (simp add: read_def)

lemma read_one [simp]: "read (Suc 0) (c # s) = Done ([c], s)"
  by (simp add: read_def)

lemma read_exact: "length b = k \<Longrightarrow> 0 < k \<Longrightarrow> read k (b @ s) = Done (b, s)"
  by (auto simp: read_def)

text \<open>Whatever \<^verbatim>\<open>_read\<close> returns is not empty.\<close>

lemma read_Done_nonempty: "read k s = Done (r, s') \<Longrightarrow> r \<noteq> []"
  by (auto simp: read_def Let_def split: if_splits)

text \<open>A read never hands out more than it was asked for, and what it returns is a prefix.\<close>

lemma read_Done_prefix: "read k s = Done (r, s') \<Longrightarrow> s = r @ s' \<and> length r \<le> k"
  by (auto simp: read_def Let_def split: if_splits)

subsection \<open>Reading only shortens the stream\<close>

lemma bind_eq_Done: "bind m f = Done x \<longleftrightarrow> (\<exists>a. m = Done a \<and> f a = Done x)"
  by (cases m) simp_all

lemma read_length: "read k s = Done (r, s') \<Longrightarrow> length s' < length s"
  by (auto simp: read_def Let_def split: if_splits)

lemma read_chars_length: "read_chars len s bytes = Done (bs, s') \<Longrightarrow> length s' \<le> length s"
proof (induction len arbitrary: s bytes)
  case 0
  then show ?case by simp
next
  case (Suc len)
  from Suc.prems show ?case
    by (auto simp: bind_eq_Done split: if_splits dest!: read_length Suc.IH)
qed

lemma read_string_length: "read_string s = Done (t, s') \<Longrightarrow> length s' < length s"
  by (auto simp: read_string_def bind_eq_Done dest!: read_length read_chars_length)

lemma read_binary_length: "read_binary s = Done (v, s') \<Longrightarrow> length s' < length s"
  by (auto simp: read_binary_def bind_eq_Done dest!: read_length)

lemma read_date_length: "read_date s = Done (v, s') \<Longrightarrow> length s' < length s"
  by (auto simp: read_date_def bind_eq_Done dest!: read_length)

lemma shorter_Done: "length s' \<le> length s \<Longrightarrow> shorter (Done (a, s')) s"
  by (simp add: shorter_def)

lemma shorter_Raise: "shorter (Raise e) s"
  by (simp add: shorter_def)

lemma shorter_OutOfFuel: "shorter OutOfFuel s"
  by (simp add: shorter_def)

lemma shorter_bind: "(\<And>a. m = Done a \<Longrightarrow> shorter (f a) s) \<Longrightarrow> shorter (bind m f) s"
  by (cases m) (simp_all add: shorter_def)

lemma shorter_if:
  "shorter a s \<Longrightarrow> shorter b s \<Longrightarrow> shorter (if c then a else b) s"
  by simp

lemma shorter_case_prod:
  "(\<And>x y. p = (x, y) \<Longrightarrow> shorter (f x y) s) \<Longrightarrow> shorter (case p of (x, y) \<Rightarrow> f x y) s"
  by (cases p) simp

lemma shorter_case_prod2:
  "(\<And>x y. p = (x, y) \<Longrightarrow> shorter (f x y z) s)
     \<Longrightarrow> shorter ((case p of (x, y) \<Rightarrow> f x y) z) s"
  by (cases p) simp

lemma shorter_case_option:
  "(x = None \<Longrightarrow> shorter a s) \<Longrightarrow> (\<And>y. x = Some y \<Longrightarrow> shorter (f y) s)
     \<Longrightarrow> shorter (case x of None \<Rightarrow> a | Some y \<Rightarrow> f y) s"
  by (cases x) simp_all

lemma shorter_trans: "shorter r s1 \<Longrightarrow> length s1 \<le> length s \<Longrightarrow> shorter r s"
  by (auto simp: shorter_def split: res.splits)

lemmas shorter_intros =
  shorter_Raise shorter_OutOfFuel shorter_bind shorter_if shorter_case_prod shorter_case_prod2
  shorter_case_option shorter_Done

lemma shorter_read [simp]: "shorter (read k s) s"
  by (auto simp: shorter_def split: res.splits dest: read_length)

lemma shorter_read_string: "shorter (read_string s) s"
  by (auto simp: shorter_def split: res.splits dest: read_string_length)

lemma shorter_read_binary: "shorter (read_binary s) s"
  by (auto simp: shorter_def split: res.splits dest: read_binary_length)

lemma shorter_read_date: "shorter (read_date s) s"
  by (auto simp: shorter_def split: res.splits dest: read_date_length)

lemma shorter_DoneD: "shorter r s \<Longrightarrow> r = Done (a, s') \<Longrightarrow> length s' \<le> length s"
  by (simp add: shorter_def)

text \<open>
  Every reader of the value decoder leaves a stream no longer than the one it was given.
  The seven functions are recursive in one another, so the seven statements are proved
  together, by induction on the budget.
\<close>

lemma decoders_length:
  "(\<forall>code s. shorter (read_object n code s) s)
   \<and> (\<forall>s. shorter (read_remote n s) s)
   \<and> (\<forall>s. shorter (read_list n s) s)
   \<and> (\<forall>code s acc. shorter (read_members n code s acc) s)
   \<and> (\<forall>s. shorter (read_map n s) s)
   \<and> (\<forall>cast code s fields. shorter (read_fields n cast code s fields) s)
   \<and> (\<forall>first s. shorter (read_keyval n first s) s)"
proof (induction n)
  case 0
  show ?case by (simp add: shorter_def)
next
  case (Suc n)
  then have obj: "\<And>code s. shorter (read_object n code s) s"
    and rem: "\<And>s. shorter (read_remote n s) s"
    and lst: "\<And>s. shorter (read_list n s) s"
    and mem: "\<And>code s acc. shorter (read_members n code s acc) s"
    and mp: "\<And>s. shorter (read_map n s) s"
    and fld: "\<And>cast code s fields. shorter (read_fields n cast code s fields) s"
    and kv: "\<And>first s. shorter (read_keyval n first s) s"
    by blast+
  note leaf = read_length read_string_length read_binary_length
  have 1: "shorter (read_object (Suc n) code s) s" for code s
    unfolding read_object.simps
    by (intro shorter_intros shorter_read_binary shorter_read_date rem lst mp)
      (auto dest!: leaf shorter_DoneD [OF obj])
  have 2: "shorter (read_remote (Suc n) s) s" for s
    unfolding read_remote.simps
    by (intro shorter_intros)
      (auto simp: bind_eq_Done split: if_splits dest!: leaf shorter_DoneD [OF obj])
  have 3: "shorter (read_list (Suc n) s) s" for s
    unfolding read_list.simps
    by (intro shorter_intros)
      (auto simp: bind_eq_Done split: if_splits dest!: leaf shorter_DoneD [OF mem])
  have 4: "shorter (read_members (Suc n) code s acc) s" for code s acc
    unfolding read_members.simps
    by (intro shorter_intros)
      (auto dest!: leaf shorter_DoneD [OF obj] intro: shorter_trans [OF mem])
  have 5: "shorter (read_map (Suc n) s) s" for s
    unfolding read_map.simps
    by (intro shorter_intros)
      (auto simp: bind_eq_Done split: if_splits dest!: leaf shorter_DoneD [OF fld])
  have 6: "shorter (read_fields (Suc n) cast code s fields) s" for cast code s fields
    unfolding read_fields.simps
    by (intro shorter_intros)
      (auto dest!: leaf shorter_DoneD [OF kv] intro: shorter_trans [OF fld])
  have 7: "shorter (read_keyval (Suc n) first s) s" for first s
    unfolding read_keyval.simps
    by (intro shorter_intros)
      (auto simp: bind_eq_Done split: option.splits if_splits dest!: leaf shorter_DoneD [OF obj])
  from 1 2 3 4 5 6 7 show ?case by blast
qed

subsection \<open>A budget of four steps per byte is enough\<close>

lemma finished_Done: "finished (Done a)"
  by (simp add: finished_def)

lemma finished_Raise: "finished (Raise e)"
  by (simp add: finished_def)

lemma finished_bind:
  "finished m \<Longrightarrow> (\<And>a. m = Done a \<Longrightarrow> finished (f a)) \<Longrightarrow> finished (bind m f)"
  by (cases m) (simp_all add: finished_def)

lemma finished_if: "finished a \<Longrightarrow> finished b \<Longrightarrow> finished (if c then a else b)"
  by simp

lemma finished_case_prod:
  "(\<And>x y. p = (x, y) \<Longrightarrow> finished (f x y)) \<Longrightarrow> finished (case p of (x, y) \<Rightarrow> f x y)"
  by (cases p) simp

lemma finished_case_prod2:
  "(\<And>x y. p = (x, y) \<Longrightarrow> finished (f x y z)) \<Longrightarrow> finished ((case p of (x, y) \<Rightarrow> f x y) z)"
  by (cases p) simp

lemma finished_case_option:
  "(x = None \<Longrightarrow> finished a) \<Longrightarrow> (\<And>y. x = Some y \<Longrightarrow> finished (f y))
     \<Longrightarrow> finished (case x of None \<Rightarrow> a | Some y \<Rightarrow> f y)"
  by (cases x) simp_all

lemma finished_read: "finished (read k s)"
  by (simp add: finished_def read_def Let_def)

lemma finished_unpack:
  "finished (unpack_H b)" "finished (unpack_l b)" "finished (unpack_q b)" "finished (unpack_d b)"
  by (simp_all add: finished_def unpack_H_def unpack_l_def unpack_q_def unpack_d_def)

lemma finished_ord: "finished (ord b)"
  by (simp add: finished_def ord_def split: list.splits)

lemma finished_misc:
  "finished (decode_utf8 x)" "finished (fromtimestamp t)" "finished (add_unicode f v)"
  "finished (setitem d k v)" "finished (setitem_str d k v)" "finished (setattr a k v)"
  by (simp_all add: finished_def decode_utf8_def fromtimestamp_def add_unicode_def setitem_def
      setitem_str_def setattr_def split: option.splits pyval.splits)

lemmas finished_intros =
  finished_Done finished_Raise finished_read finished_unpack finished_ord finished_misc
  finished_bind finished_if finished_case_prod finished_case_prod2 finished_case_option

lemma finished_read_chars: "finished (read_chars len s bytes)"
proof (induction len arbitrary: s bytes)
  case 0
  show ?case by (simp add: finished_def)
next
  case (Suc len)
  show ?case
    unfolding read_chars.simps by (intro finished_intros Suc.IH)
qed

lemma finished_read_string: "finished (read_string s)"
  unfolding read_string_def by (intro finished_intros finished_read_chars)

lemma finished_read_binary: "finished (read_binary s)"
  unfolding read_binary_def by (intro finished_intros)

lemma finished_read_date: "finished (read_date s)"
  unfolding read_date_def by (intro finished_intros)

text \<open>
  With four steps for every byte of the stream, and one to four more according to the
  function, no reader runs out of budget: between two reads that consume a byte the
  readers call each other at most four deep (fields, key and value, value, map).
\<close>

lemma decoders_fuel:
  "(\<forall>code s. 4 * length s + 2 \<le> n \<longrightarrow> finished (read_object n code s))
   \<and> (\<forall>s. 4 * length s + 1 \<le> n \<longrightarrow> finished (read_remote n s))
   \<and> (\<forall>s. 4 * length s + 1 \<le> n \<longrightarrow> finished (read_list n s))
   \<and> (\<forall>code s acc. 4 * length s + 3 \<le> n \<longrightarrow> finished (read_members n code s acc))
   \<and> (\<forall>s. 4 * length s + 1 \<le> n \<longrightarrow> finished (read_map n s))
   \<and> (\<forall>cast code s fields. 4 * length s + 4 \<le> n
          \<longrightarrow> finished (read_fields n cast code s fields))
   \<and> (\<forall>first s. 4 * length s + 3 \<le> n \<longrightarrow> finished (read_keyval n first s))"
proof (induction n)
  case 0
  show ?case by simp
next
  case (Suc n)
  then have obj: "\<And>code s. 4 * length s + 2 \<le> n \<Longrightarrow> finished (read_object n code s)"
    and rem: "\<And>s. 4 * length s + 1 \<le> n \<Longrightarrow> finished (read_remote n s)"
    and lst: "\<And>s. 4 * length s + 1 \<le> n \<Longrightarrow> finished (read_list n s)"
    and mem: "\<And>code s acc. 4 * length s + 3 \<le> n \<Longrightarrow> finished (read_members n code s acc)"
    and mp: "\<And>s. 4 * length s + 1 \<le> n \<Longrightarrow> finished (read_map n s)"
    and fld: "\<And>cast code s fields. 4 * length s + 4 \<le> n
                \<Longrightarrow> finished (read_fields n cast code s fields)"
    and kv: "\<And>first s. 4 * length s + 3 \<le> n \<Longrightarrow> finished (read_keyval n first s)"
    by blast+
  note len = decoders_length [of n]
  have lobj: "\<And>code s v s'. read_object n code s = Done (v, s') \<Longrightarrow> length s' \<le> length s"
    and lkv: "\<And>first s v s'. read_keyval n first s = Done (v, s') \<Longrightarrow> length s' \<le> length s"
    using len by (blast intro: shorter_DoneD)+
  note leaf = read_length read_string_length read_binary_length
  have 1: "finished (read_object (Suc n) code s)" if "4 * length s + 2 \<le> Suc n" for code s
    unfolding read_object.simps
    by (intro finished_intros finished_read_string finished_read_binary finished_read_date
        obj rem lst mp)
      (use that in \<open>auto dest!: leaf\<close>)
  have 2: "finished (read_remote (Suc n) s)" if "4 * length s + 1 \<le> Suc n" for s
    unfolding read_remote.simps
    by (intro finished_intros obj)
      (use that in \<open>auto simp: bind_eq_Done split: if_splits dest!: leaf\<close>)
  have 3: "finished (read_list (Suc n) s)" if "4 * length s + 1 \<le> Suc n" for s
    unfolding read_list.simps
    by (intro finished_intros mem)
      (use that in \<open>auto simp: bind_eq_Done split: if_splits dest!: leaf\<close>)
  have 4: "finished (read_members (Suc n) code s acc)" if "4 * length s + 3 \<le> Suc n"
    for code s acc
    unfolding read_members.simps
    by (intro finished_intros obj mem)
      (use that in \<open>auto dest!: leaf lobj\<close>)
  have 5: "finished (read_map (Suc n) s)" if "4 * length s + 1 \<le> Suc n" for s
    unfolding read_map.simps
    by (intro finished_intros fld)
      (use that in \<open>auto simp: bind_eq_Done split: if_splits dest!: leaf\<close>)
  have 6: "finished (read_fields (Suc n) cast code s fields)" if "4 * length s + 4 \<le> Suc n"
    for cast code s fields
    unfolding read_fields.simps
    by (intro finished_intros kv fld)
      (use that in \<open>auto dest!: leaf lkv\<close>)
  have 7: "finished (read_keyval (Suc n) first s)" if "4 * length s + 3 \<le> Suc n" for first s
    unfolding read_keyval.simps
    by (intro finished_intros obj)
      (use that in \<open>auto simp: bind_eq_Done split: option.splits if_splits dest!: leaf lobj\<close>)
  from 1 2 3 4 5 6 7 show ?case by blast
qed

subsection \<open>A larger budget changes no result\<close>

lemma le_res_refl: "le_res r r"
  by (simp add: le_res_def)

lemma le_res_OutOfFuel: "le_res OutOfFuel r"
  by (simp add: le_res_def)

lemma le_res_bind:
  assumes "le_res m m'" and "\<And>a. le_res (f a) (f' a)"
  shows "le_res (bind m f) (bind m' f')"
proof (cases m)
  case (Done a)
  with assms(1) have "m' = Done a"
    by (simp add: le_res_def)
  with Done assms(2) [of a] show ?thesis
    by simp
next
  case (Raise e)
  with assms(1) have "m' = Raise e"
    by (simp add: le_res_def)
  with Raise show ?thesis
    by (simp add: le_res_def)
next
  case OutOfFuel
  then show ?thesis
    by (simp add: le_res_def)
qed

lemma le_res_if:
  "le_res a a' \<Longrightarrow> le_res b b' \<Longrightarrow> le_res (if c then a else b) (if c then a' else b')"
  by simp

lemma le_res_case_prod:
  "(\<And>x y. le_res (f x y) (f' x y))
     \<Longrightarrow> le_res (case p of (x, y) \<Rightarrow> f x y) (case p of (x, y) \<Rightarrow> f' x y)"
  by (cases p) simp

lemma le_res_case_prod2:
  "(\<And>x y. le_res (f x y z) (f' x y z))
     \<Longrightarrow> le_res ((case p of (x, y) \<Rightarrow> f x y) z) ((case p of (x, y) \<Rightarrow> f' x y) z)"
  by (cases p) simp

lemma le_res_case_option:
  "le_res a a' \<Longrightarrow> (\<And>y. le_res (f y) (f' y))
     \<Longrightarrow> le_res (case x of None \<Rightarrow> a | Some y \<Rightarrow> f y) (case x of None \<Rightarrow> a' | Some y \<Rightarrow> f' y)"
  by (cases x) simp_all

lemma le_res_case_envelope:
  "(\<And>h m a. le_res (f h m a) (f' h m a)) \<Longrightarrow> (\<And>h x. le_res (g h x) (g' h x))
     \<Longrightarrow> le_res (case e of Call h m a \<Rightarrow> f h m a | Reply h x \<Rightarrow> g h x)
           (case e of Call h m a \<Rightarrow> f' h m a | Reply h x \<Rightarrow> g' h x)"
  by (cases e) simp_all

lemmas le_res_intros =
  le_res_refl le_res_bind le_res_if le_res_case_prod le_res_case_prod2 le_res_case_option
  le_res_case_envelope

text \<open>
  One more step on both sides keeps the order, for each of the seven readers; hence
  a result obtained with some budget is the result with any larger budget.
\<close>

lemma decoders_step:
  assumes obj: "\<And>code s. le_res (read_object n code s) (read_object m code s)"
    and rem: "\<And>s. le_res (read_remote n s) (read_remote m s)"
    and lst: "\<And>s. le_res (read_list n s) (read_list m s)"
    and mem: "\<And>code s acc. le_res (read_members n code s acc) (read_members m code s acc)"
    and mp: "\<And>s. le_res (read_map n s) (read_map m s)"
    and fld: "\<And>cast code s fields.
                le_res (read_fields n cast code s fields) (read_fields m cast code s fields)"
    and kv: "\<And>first s. le_res (read_keyval n first s) (read_keyval m first s)"
  shows "le_res (read_object (Suc n) code s) (read_object (Suc m) code s)"
    and "le_res (read_remote (Suc n) s) (read_remote (Suc m) s)"
    and "le_res (read_list (Suc n) s) (read_list (Suc m) s)"
    and "le_res (read_members (Suc n) code s acc) (read_members (Suc m) code s acc)"
    and "le_res (read_map (Suc n) s) (read_map (Suc m) s)"
    and "le_res (read_fields (Suc n) cast code s fields) (read_fields (Suc m) cast code s fields)"
    and "le_res (read_keyval (Suc n) first s) (read_keyval (Suc m) first s)"
  unfolding read_object.simps read_remote.simps read_list.simps read_members.simps
    read_map.simps read_fields.simps read_keyval.simps
  by (intro le_res_intros obj rem lst mem mp fld kv)+

lemma decoders_mono:
  "n \<le> m \<Longrightarrow>
   (\<forall>code s. le_res (read_object n code s) (read_object m code s))
   \<and> (\<forall>s. le_res (read_remote n s) (read_remote m s))
   \<and> (\<forall>s. le_res (read_list n s) (read_list m s))
   \<and> (\<forall>code s acc. le_res (read_members n code s acc) (read_members m code s acc))
   \<and> (\<forall>s. le_res (read_map n s) (read_map m s))
   \<and> (\<forall>cast code s fields.
        le_res (read_fields n cast code s fields) (read_fields m cast code s fields))
   \<and> (\<forall>first s. le_res (read_keyval n first s) (read_keyval m first s))"
proof (induction n arbitrary: m)
  case 0
  show ?case by (simp add: le_res_OutOfFuel)
next
  case (Suc n)
  then obtain m' where m: "m = Suc m'" and le: "n \<le> m'"
    by (cases m) auto
  from Suc.IH [OF le] show ?case
    unfolding m by (intro conjI allI decoders_step) blast+
qed

lemma read_fault_mono: "n \<le> m \<Longrightarrow> le_res (read_fault n s) (read_fault m s)"
  unfolding read_fault_def
  by (intro le_res_intros) (use decoders_mono [of n m] in blast)+

lemma parse_loop_mono: "n \<le> m \<Longrightarrow> le_res (parse_loop n result s) (parse_loop m result s)"
proof (induction n arbitrary: m result s)
  case 0
  show ?case by (simp add: le_res_OutOfFuel)
next
  case (Suc n)
  then obtain m' where m: "m = Suc m'" and le: "n \<le> m'"
    by (cases m) auto
  note d = decoders_mono [OF le]
  have obj: "\<And>code s. le_res (read_object n code s) (read_object m' code s)"
    and kv: "\<And>first s. le_res (read_keyval n first s) (read_keyval m' first s)"
    using d by blast+
  show ?case
    unfolding m parse_loop.simps
    by (intro le_res_intros obj kv read_fault_mono le Suc.IH)
qed

lemma read_fault_length: "shorter (read_fault n s) s"
proof -
  have kv: "\<And>first s v s'. read_keyval n first s = Done (v, s') \<Longrightarrow> length s' \<le> length s"
    using decoders_length [of n] by (blast intro: shorter_DoneD)
  show ?thesis
    unfolding read_fault_def
    by (intro shorter_intros) (auto dest!: kv)
qed

lemma read_fault_fuel: "4 * length s + 3 \<le> n \<Longrightarrow> finished (read_fault n s)"
proof -
  assume n: "4 * length s + 3 \<le> n"
  have kv: "\<And>first s v s'. read_keyval n first s = Done (v, s') \<Longrightarrow> length s' \<le> length s"
    using decoders_length [of n] by (blast intro: shorter_DoneD)
  have fkv: "\<And>first s. 4 * length s + 3 \<le> n \<Longrightarrow> finished (read_keyval n first s)"
    using decoders_fuel [of n] by blast
  show ?thesis
    unfolding read_fault_def
    by (intro finished_intros fkv) (use n in \<open>auto dest!: kv\<close>)
qed

lemma finished_case_envelope:
  "(\<And>h m a. e = Call h m a \<Longrightarrow> finished (f h m a))
     \<Longrightarrow> (\<And>h x. e = Reply h x \<Longrightarrow> finished (g h x))
     \<Longrightarrow> finished (case e of Call h m a \<Rightarrow> f h m a | Reply h x \<Rightarrow> g h x)"
  by (cases e) simp_all

lemma parse_loop_fuel: "4 * length s + 1 \<le> n \<Longrightarrow> finished (parse_loop n result s)"
proof (induction n arbitrary: result s)
  case 0
  then show ?case by simp
next
  case (Suc n)
  have lobj: "\<And>code s v s'. read_object n code s = Done (v, s') \<Longrightarrow> length s' \<le> length s"
    and lkv: "\<And>first s v s'. read_keyval n first s = Done (v, s') \<Longrightarrow> length s' \<le> length s"
    using decoders_length [of n] by (blast intro: shorter_DoneD)+
  have lf: "\<And>s v s'. read_fault n s = Done (v, s') \<Longrightarrow> length s' \<le> length s"
    using read_fault_length by (blast intro: shorter_DoneD)
  have obj: "\<And>code s. 4 * length s + 2 \<le> n \<Longrightarrow> finished (read_object n code s)"
    and kv: "\<And>first s. 4 * length s + 3 \<le> n \<Longrightarrow> finished (read_keyval n first s)"
    using decoders_fuel [of n] by blast+
  show ?case
    unfolding parse_loop.simps
    by (intro finished_intros finished_case_envelope obj kv read_fault_fuel Suc.IH)
      (use Suc.prems in \<open>auto dest!: read_length lobj lkv lf\<close>)
qed

text \<open>
  The parse of a stream \<open>s\<close> does not depend on the budget from \<open>4 * length s + 1\<close> on, and
  it is a return or an exception there: the model defines one result for every stream,
  and the properties below, stated for every budget that lets the function take its
  first step, hold of that result.
\<close>

theorem parse_stream_total:
  assumes "4 * length s + 1 \<le> n"
  shows "parse_stream n s \<noteq> OutOfFuel \<and> parse_stream n s = parse_stream (4 * length s + 1) s"
proof -
  have f: "finished (parse_stream (4 * length s + 1) s)"
    unfolding parse_stream_def by (rule parse_loop_fuel) simp
  have "le_res (parse_stream (4 * length s + 1) s) (parse_stream n s)"
    unfolding parse_stream_def using assms by (rule parse_loop_mono)
  with f show ?thesis
    by (auto simp: le_res_def finished_def)
qed

subsection \<open>Binary chunks\<close>

text \<open>
  C1. The claim: a non-terminal binary chunk \<^verbatim>\<open>b\<close> followed by a matching tag decodes
  to the chunk's bytes joined with the decoded continuation. The code does not: on the
  message \<^verbatim>\<open>c 01 00 b 00 01 'a' B 00 01 'b' z\<close> (a Call with one binary argument sent as
  the chunk \<^verbatim>\<open>a\<close> and the final chunk \<^verbatim>\<open>b\<close>) the continuation is read by calling
  \<^verbatim>\<open>_read_binary\<close> with an argument it does not take, and the parse ends in a
  \<^verbatim>\<open>TypeError\<close>; the same happens when the continuation is another \<^verbatim>\<open>b\<close> chunk.
\<close>

theorem binary_chunk_continuation_raises:
  "parse_stream 5
     (''c'' @ the_version @ ''b'' @ [CHR 0x00, CHR 0x01] @ ''a''
        @ ''B'' @ [CHR 0x00, CHR 0x01] @ ''b'' @ ''z'') = Raise TypeError
   \<and> parse_stream 5
     (''c'' @ the_version @ ''b'' @ [CHR 0x00, CHR 0x01] @ ''a''
        @ ''b'' @ [CHR 0x00, CHR 0x01] @ ''b'' @ ''B'' @ [CHR 0x00, CHR 0x01] @ ''c'' @ ''z'')
       = Raise TypeError"
  by code_simp

text \<open>
  C6. The claim: after a non-terminal chunk (\<^verbatim>\<open>s\<close>, \<^verbatim>\<open>x\<close> or \<^verbatim>\<open>b\<close>) a next tag whose
  lower-cased form differs from the chunk's tag fails with ExpectedTerminalChunk and
  never yields a null value. For \<^verbatim>\<open>s\<close> the code does so; for \<^verbatim>\<open>b\<close> it does not: on
  the message \<^verbatim>\<open>c 01 00 b 00 01 'a' N z\<close> the chunk is followed by the tag \<^verbatim>\<open>N\<close>, the
  branch ends without a result, and the parse returns a Call whose one argument is
  \<^verbatim>\<open>None\<close>, the chunk's byte and the tag \<^verbatim>\<open>N\<close> both consumed.
\<close>

theorem binary_chunk_mismatch_returns_None:
  "parse_stream 5 (''c'' @ the_version @ ''b'' @ [CHR 0x00, CHR 0x01] @ ''a'' @ ''N'' @ ''z'')
     = Done (Call [] None [PNone])
   \<and> parse_stream 5 (''c'' @ the_version @ ''s'' @ [CHR 0x00, CHR 0x01] @ ''a'' @ ''N'' @ ''z'')
     = Raise (ParseError ExpectedTerminalChunk)"
  by code_simp

subsection \<open>Strings\<close>

text \<open>
  C2. The claim: a leading byte in 0x00-0x7F is a character of its own, one in 0xC2-0xDF
  takes 1 continuation byte, one in 0xE0-0xEF takes 2, one in 0xF0-0xF4 takes 3, and the
  bytes of every character are accumulated. The code tests the leading byte with
  \<^verbatim>\<open>range(lo, hi)\<close>, which leaves \<^verbatim>\<open>hi\<close> out, so the leading bytes 0x7F, 0xDF, 0xEF
  and 0xF4 match no case and are dropped. The Reply \<^verbatim>\<open>r 01 00 S 00 01 7F z\<close>, whose value
  is the one-character string U+007F, decodes to the empty string. The three-character
  string U+07FF, a, b (bytes \<^verbatim>\<open>DF BF 61 62\<close>) decodes to the one character a and
  consumes three bytes after the count, where the string U+00E9, a, b (bytes
  \<^verbatim>\<open>C3 A9 61 62\<close>) decodes to its three characters and consumes four.
\<close>

theorem string_boundary_lead_bytes_dropped:
  "parse_stream 5 (''r'' @ the_version @ ''S'' @ [CHR 0x00, CHR 0x01, CHR 0x7F] @ ''z'')
     = Done (Reply [] (PUnicode []))
   \<and> read_string ([CHR 0x00, CHR 0x03, CHR 0xDF, CHR 0xBF] @ ''ab'' @ ''z'') = Done ([97], ''bz'')
   \<and> read_string ([CHR 0x00, CHR 0x03, CHR 0xC3, CHR 0xA9] @ ''ab'' @ ''z'')
     = Done ([233, 97, 98], ''z'')"
  by code_simp

subsection \<open>Short reads\<close>

text \<open>
  C3. The claim: a read of N bytes obtains exactly N bytes or the parse fails at once with
  UnexpectedEndOfStream, so a stream cut inside a fixed-width field fails with that error
  and yields no partial value and no other error. \<^verbatim>\<open>_read\<close> raises only when the
  stream returned nothing; a stream that ends inside the field returns the bytes it has.
  A read of 4 bytes from the 2 bytes \<^verbatim>\<open>ab\<close> returns \<^verbatim>\<open>ab\<close>. The message
  \<^verbatim>\<open>c 01 00 I 00 00\<close>, cut inside the integer, ends in \<^verbatim>\<open>struct.error\<close>; the message
  \<^verbatim>\<open>c 01\<close>, cut inside the version, ends in the unrecognized-version error; a string
  cut inside its last character ends in \<^verbatim>\<open>UnicodeDecodeError\<close>; a binary value
  declared 5 bytes long with 2 bytes left is the 2-byte Binary.
\<close>

theorem short_read_not_end_of_stream:
  "read 4 ''ab'' = Done (''ab'', [])
   \<and> parse_stream 5 (''c'' @ the_version @ ''I'' @ [CHR 0x00, CHR 0x00]) = Raise StructError
   \<and> parse_stream 5 (''c'' @ [CHR 0x01]) = Raise (ParseError UnsupportedVersion)
   \<and> parse_stream 5 (''c'' @ the_version @ ''S'' @ [CHR 0x00, CHR 0x01, CHR 0xE2, CHR 0x82])
       = Raise UnicodeDecodeError
   \<and> read_object 5 ''B'' ([CHR 0x00, CHR 0x05] @ ''ab'') = Done (PBinary ''ab'', [])"
  by code_simp

subsection \<open>The value of a Reply\<close>

text \<open>
  C4. The claim: once the value of a Reply has been set, a further value tag or \<^verbatim>\<open>f\<close>
  fails with IllegalExtraValue, whichever value was set first. The code tests the truth
  value of \<^verbatim>\<open>self._result.value\<close>, so a first value that Python counts as false
  (\<^verbatim>\<open>None\<close>, \<^verbatim>\<open>False\<close>, 0, the empty string, an empty list or map) is overwritten
  without an error: the Reply \<^verbatim>\<open>r 01 00 F T z\<close> parses to a Reply with the value
  \<^verbatim>\<open>True\<close>, and so does \<^verbatim>\<open>r 01 00 I 00 00 00 00 T z\<close>. After a first value that counts
  as true the second one is refused.
\<close>

theorem reply_falsy_value_overwritten:
  "parse_stream 5 (''r'' @ the_version @ ''F'' @ ''T'' @ ''z'') = Done (Reply [] (PBool True))
   \<and> parse_stream 5 (''r'' @ the_version @ ''I'' @ [CHR 0x00, CHR 0x00, CHR 0x00, CHR 0x00]
        @ ''T'' @ ''z'') = Done (Reply [] (PBool True))
   \<and> parse_stream 5 (''r'' @ the_version @ ''T'' @ ''F'' @ ''z'')
       = Raise (ParseError IllegalExtraValue)"
  by code_simp

subsection \<open>The method name of a Call\<close>

text \<open>
  No tag but \<^verbatim>\<open>m\<close> assigns the method: a parse that goes on from a Call with a method
  name and returns, returns a Call with that name.
\<close>

lemma method_name_kept:
  "parse_loop n (Some (Call h (Some name) a)) s = Done env \<Longrightarrow> name \<noteq> []
     \<Longrightarrow> is_Call env \<and> method_name env = Some name"
proof (induction n arbitrary: h a s)
  case 0
  then show ?case by simp
next
  case (Suc n)
  from Suc.prems show ?case
    by (auto simp: bind_eq_Done truthy_str_def split: if_splits dest: Suc.IH)
qed

text \<open>
  C5. For every Call whose method name has been set by an \<^verbatim>\<open>m\<close> tag, a further
  \<^verbatim>\<open>m\<close> tag fails with DuplicateMethodName. The hypotheses are the three reads of
  the first \<^verbatim>\<open>m\<close> tag (the length bytes, their value, the name). The first conjunct
  is that tag setting the method of a Call that has none to the name read; the second is
  the failure of an \<^verbatim>\<open>m\<close> tag met later, in any state of the Call that holds this name
  (and by \<open>method_name_kept\<close> every later state of the Call holds it). A name that
  \<^verbatim>\<open>_read\<close> returned is never empty, so the method is true in the condition that
  guards the assignment; a method tag of length zero sets no name, as it fails in
  \<^verbatim>\<open>_read\<close>.
\<close>

theorem duplicate_method_name:
  assumes "read 2 s = Done (b, s2)" and "unpack_H b = Done len"
    and "read len s2 = Done (name, s3)"
  shows "parse_loop (Suc n) (Some (Call h None a)) (CHR ''m'' # s)
           = parse_loop n (Some (Call h (Some name) a)) s3
       \<and> parse_loop (Suc k) (Some (Call h' (Some name) a')) (CHR ''m'' # s')
           = Raise (ParseError DuplicateMethodName)"
proof -
  have "name \<noteq> []"
    using assms(3) by (rule read_Done_nonempty)
  then show ?thesis
    using assms by (simp add: truthy_str_def)
qed

theorem duplicate_method_name_witness:
  "read 2 ([CHR 0x00, CHR 0x01] @ ''a'' @ ''m'' @ [CHR 0x00, CHR 0x01] @ ''b'' @ ''z'')
     = Done ([CHR 0x00, CHR 0x01], ''a'' @ ''m'' @ [CHR 0x00, CHR 0x01] @ ''b'' @ ''z'')
   \<and> unpack_H [CHR 0x00, CHR 0x01] = Done 1
   \<and> read 1 (''a'' @ ''m'' @ [CHR 0x00, CHR 0x01] @ ''b'' @ ''z'')
     = Done (''a'', ''m'' @ [CHR 0x00, CHR 0x01] @ ''b'' @ ''z'')
   \<and> parse_loop (Suc 2) (Some (Call [] None []))
        (CHR ''m'' # [CHR 0x00, CHR 0x01] @ ''a'' @ ''m'' @ [CHR 0x00, CHR 0x01] @ ''b'' @ ''z'')
     = parse_loop 2 (Some (Call [] (Some ''a'') [])) (''m'' @ [CHR 0x00, CHR 0x01] @ ''b'' @ ''z'')
   \<and> parse_loop (Suc 1) (Some (Call [] (Some ''a'') []))
        (CHR ''m'' # [CHR 0x00, CHR 0x01] @ ''b'' @ ''z'')
     = Raise (ParseError DuplicateMethodName)"
proof -
  have r2: "read 2 ([CHR 0x00, CHR 0x01] @ ''a'' @ ''m'' @ [CHR 0x00, CHR 0x01] @ ''b'' @ ''z'')
     = Done ([CHR 0x00, CHR 0x01], ''a'' @ ''m'' @ [CHR 0x00, CHR 0x01] @ ''b'' @ ''z'')"
    by (simp add: read_def)
  have u: "unpack_H [CHR 0x00, CHR 0x01] = Done 1"
    by (simp add: unpack_H_def be_uint_def)
  have r1: "read 1 (''a'' @ ''m'' @ [CHR 0x00, CHR 0x01] @ ''b'' @ ''z'')
     = Done (''a'', ''m'' @ [CHR 0x00, CHR 0x01] @ ''b'' @ ''z'')"
    by (simp add: read_def)
  show ?thesis
    using r2 u r1
      duplicate_method_name [OF r2 u r1, of 2 "[]" "[]" 1 "[]" "[]"
        "[CHR 0x00, CHR 0x01] @ ''b'' @ ''z''"]
    by simp
qed

subsection \<open>Lists with a declared length\<close>

text \<open>The loop of \<^verbatim>\<open>_read_list\<close>, with its accumulator, computes the list contract.\<close>

lemma read_members_values:
  "read_members n code s acc = bind (values_until_z n code s) (\<lambda>(vs, s'). Done (acc @ vs, s'))"
proof (induction n arbitrary: code s acc)
  case 0
  show ?case by simp
next
  case (Suc n)
  show ?case
  proof (cases "code = ''z''")
    case True
    then show ?thesis by simp
  next
    case False
    show ?thesis
    proof (cases "read_object n code s")
      case (Done r)
      obtain v s1 where r: "r = (v, s1)" by (cases r)
      show ?thesis
      proof (cases "read 1 s1")
        case (Done q)
        obtain c s2 where q: "q = (c, s2)" by (cases q)
        have "read_members n c s2 (acc @ [v])
                = bind (values_until_z n c s2) (\<lambda>(vs, s'). Done ((acc @ [v]) @ vs, s'))"
          by (rule Suc.IH)
        with False \<open>read_object n code s = Done r\<close> r Done q show ?thesis
          by (cases "values_until_z n c s2") (auto simp: bind_def split: prod.splits)
      qed (use False \<open>read_object n code s = Done r\<close> r in simp_all)
    qed (use False in simp_all)
  qed
qed

text \<open>
  C7. For every list that carries the tag \<^verbatim>\<open>l\<close>, directly or after a type name
  (\<^verbatim>\<open>t\<close>, two length bytes \<open>b\<close>, the name), the 4 bytes \<open>count\<close> after the tag are read
  and have no effect on the result: the list is a tuple, and its members are the values
  decoded from the tag \<open>c\<close> after the count up to the terminator \<^verbatim>\<open>z\<close>, in read
  order, whatever \<open>count\<close> says. Errors of the member values are the errors of the list.
\<close>

theorem read_list_fixed_arity:
  assumes "length count = 4"
  shows "read_list (Suc n) (''l'' @ count @ c # s)
           = bind (values_until_z n [c] s) (\<lambda>(vs, s'). Done (PTuple vs, s'))
       \<and> (length b = 2 \<and> be_uint b = length name \<and> name \<noteq> [] \<longrightarrow>
            read_list (Suc n) (''t'' @ b @ name @ ''l'' @ count @ c # s)
              = bind (values_until_z n [c] s) (\<lambda>(vs, s'). Done (PTuple vs, s')))"
proof -
  have r4: "read 4 (count @ c # s) = Done (count, c # s)"
    using assms by (simp add: read_exact)
  have m: "read_members n [c] s [] = bind (values_until_z n [c] s) (\<lambda>(vs, s'). Done (vs, s'))"
    by (simp add: read_members_values)
  have untyped: "read_list (Suc n) (''l'' @ count @ c # s)
           = bind (values_until_z n [c] s) (\<lambda>(vs, s'). Done (PTuple vs, s'))"
    using r4 by (simp add: m bind_assoc)
  have typed: "read_list (Suc n) (''t'' @ b @ name @ ''l'' @ count @ c # s)
              = bind (values_until_z n [c] s) (\<lambda>(vs, s'). Done (PTuple vs, s'))"
    if b: "length b = 2" "be_uint b = length name" "name \<noteq> []"
  proof -
    have r2: "read 2 (b @ name @ ''l'' @ count @ c # s) = Done (b, name @ ''l'' @ count @ c # s)"
      using b by (simp add: read_exact)
    have rn: "read (length name) (name @ ''l'' @ count @ c # s)
                = Done (name, ''l'' @ count @ c # s)"
      using b by (simp add: read_exact)
    show ?thesis
      using r2 rn r4 b by (simp add: unpack_H_def m bind_assoc)
  qed
  from untyped typed show ?thesis by blast
qed

theorem read_list_fixed_arity_witness:
  "length [CHR 0x00, CHR 0x00, CHR 0x00, CHR 0x09] = 4
   \<and> length [CHR 0x00, CHR 0x08] = 2 \<and> be_uint [CHR 0x00, CHR 0x08] = length ''typename''
   \<and> ''typename'' \<noteq> []
   \<and> read_list (Suc 5) (''l'' @ [CHR 0x00, CHR 0x00, CHR 0x00, CHR 0x09] @ CHR ''N'' # ''Tzrest'')
       = Done (PTuple [PNone, PBool True], ''rest'')
   \<and> read_list (Suc 5) (''t'' @ [CHR 0x00, CHR 0x08] @ ''typename''
          @ ''l'' @ [CHR 0x00, CHR 0x00, CHR 0x00, CHR 0x09] @ CHR ''N'' # ''Tzrest'')
       = Done (PTuple [PNone, PBool True], ''rest'')"
proof -
  have len: "length [CHR 0x00, CHR 0x00, CHR 0x00, CHR 0x09] = 4"
    by simp
  have b: "length [CHR 0x00, CHR 0x08] = 2 \<and> be_uint [CHR 0x00, CHR 0x08] = length ''typename''
      \<and> ''typename'' \<noteq> []"
    by (simp add: be_uint_def)
  have v: "values_until_z 5 ''N'' ''Tzrest'' = Done ([PNone, PBool True], ''rest'')"
    by code_simp
  show ?thesis
    using len b v
      read_list_fixed_arity [OF len, of 5 "CHR ''N''" "''Tzrest''" "[CHR 0x00, CHR 0x08]"
        "''typename''"]
    by simp
qed

subsection \<open>Dates\<close>

text \<open>
  C8. The claim: the 8 bytes after \<^verbatim>\<open>d\<close> are milliseconds since the epoch and the
  decoded timestamp is exactly that instant, milliseconds included. The code divides the
  count by 1000 with the integer division of Python 2 before it builds the datetime, so
  the milliseconds are lost: the Reply \<^verbatim>\<open>r 01 00 d 00 00 00 00 00 00 05 DC z\<close> carries the
  date 1500 ms after the epoch and decodes to the datetime of second 1 with microsecond 0,
  the same datetime as the date 1000 ms after the epoch.
\<close>

theorem read_date_drops_milliseconds:
  "parse_stream 5 (''r'' @ the_version
      @ ''d'' @ [CHR 0x00, CHR 0x00, CHR 0x00, CHR 0x00, CHR 0x00, CHR 0x00, CHR 0x05, CHR 0xDC]
      @ ''z'') = Done (Reply [] (PDatetime 1 0))
   \<and> parse_stream 5 (''r'' @ the_version
      @ ''d'' @ [CHR 0x00, CHR 0x00, CHR 0x00, CHR 0x00, CHR 0x00, CHR 0x00, CHR 0x03, CHR 0xE8]
      @ ''z'') = Done (Reply [] (PDatetime 1 0))
   \<and> unpack_q [CHR 0x00, CHR 0x00, CHR 0x00, CHR 0x00, CHR 0x00, CHR 0x00, CHR 0x05, CHR 0xDC]
       = Done 1500"
  by code_simp

subsection \<open>Back-references\<close>

text \<open>
  C9, as amended. Wherever a value is expected, the tag \<^verbatim>\<open>R\<close> fails with Python's
  \<^verbatim>\<open>NotImplementedError\<close>, which is not a \<^verbatim>\<open>ParseError\<close>; no back-reference is
  resolved and nothing of the stream after the tag is read. The conjuncts are the value
  decoder itself, an argument of a Call, the value of a new Reply, a member of a list and
  a key of a map.
\<close>

theorem back_reference_not_implemented:
  "read_object (Suc n) ''R'' s = Raise NotImplementedError
   \<and> \<not> is_parse_error NotImplementedError
   \<and> parse_loop (Suc (Suc n)) (Some (Call h m a)) (CHR ''R'' # s) = Raise NotImplementedError
   \<and> parse_loop (Suc (Suc n)) (Some new_Reply) (CHR ''R'' # s) = Raise NotImplementedError
   \<and> read_list (Suc (Suc (Suc n))) (CHR ''R'' # s) = Raise NotImplementedError
   \<and> read_map (Suc (Suc (Suc (Suc n)))) (CHR ''R'' # s) = Raise NotImplementedError"
  by (simp add: is_parse_error_def new_Reply_def)

text \<open>
  The claim as written has the failure inside the parser's own taxonomy. On the Call
  \<^verbatim>\<open>c 01 00 R\<close> the parse ends in \<^verbatim>\<open>NotImplementedError\<close>, which is no \<^verbatim>\<open>ParseError\<close>.
\<close>

theorem back_reference_outside_taxonomy:
  "parse_stream 5 (''c'' @ the_version @ ''R'') = Raise NotImplementedError
   \<and> \<not> is_parse_error NotImplementedError"
  by code_simp

subsection \<open>Declared lengths of zero\<close>

text \<open>
  C10. A declared length of zero fails with the unexpected-end-of-stream error: a read of
  zero bytes returns the empty string, which \<^verbatim>\<open>_read\<close> takes for the end of the
  stream whatever the stream still holds. So fail the binary value \<^verbatim>\<open>B 00 00\<close> (in the
  value decoder, as an argument of a Call and as the value of a new Reply), the method tag
  \<^verbatim>\<open>m 00 00\<close> of a Call with no method yet, and the type prefix \<^verbatim>\<open>t 00 00\<close> of a
  list, a map and a remote (in their readers and within an argument of a Call; a remote
  is met inside a list, the tag \<^verbatim>\<open>r\<close> being the Reply header at the top).
\<close>

theorem zero_length_is_end_of_stream:
  "read 0 s = Raise (ParseError UnexpectedEndOfStream)
   \<and> read_object (Suc n) ''B'' (CHR 0x00 # CHR 0x00 # s) = Raise (ParseError UnexpectedEndOfStream)
   \<and> parse_loop (Suc (Suc n)) (Some (Call h m a)) (''B'' @ CHR 0x00 # CHR 0x00 # s)
        = Raise (ParseError UnexpectedEndOfStream)
   \<and> parse_loop (Suc n) (Some (Call h None a)) (''m'' @ CHR 0x00 # CHR 0x00 # s)
        = Raise (ParseError UnexpectedEndOfStream)
   \<and> parse_loop (Suc (Suc n)) (Some new_Reply) (''B'' @ CHR 0x00 # CHR 0x00 # s)
        = Raise (ParseError UnexpectedEndOfStream)
   \<and> read_list (Suc n) (''t'' @ CHR 0x00 # CHR 0x00 # s) = Raise (ParseError UnexpectedEndOfStream)
   \<and> read_map (Suc n) (''t'' @ CHR 0x00 # CHR 0x00 # s) = Raise (ParseError UnexpectedEndOfStream)
   \<and> read_remote (Suc n) (''t'' @ CHR 0x00 # CHR 0x00 # s)
        = Raise (ParseError UnexpectedEndOfStream)
   \<and> parse_loop (Suc (Suc (Suc n))) (Some (Call h m a)) (''Vt'' @ CHR 0x00 # CHR 0x00 # s)
        = Raise (ParseError UnexpectedEndOfStream)
   \<and> parse_loop (Suc (Suc (Suc n))) (Some (Call h m a)) (''Mt'' @ CHR 0x00 # CHR 0x00 # s)
        = Raise (ParseError UnexpectedEndOfStream)
   \<and> parse_loop (Suc (Suc (Suc (Suc (Suc (Suc n)))))) (Some (Call h m a))
        (''Vrt'' @ CHR 0x00 # CHR 0x00 # s)
        = Raise (ParseError UnexpectedEndOfStream)"
proof -
  have r2: "read 2 (CHR 0x00 # CHR 0x00 # s) = Done ([CHR 0x00, CHR 0x00], s)"
    by (simp add: read_def)
  have z: "unpack_H [CHR 0x00, CHR 0x00] = Done 0"
    by (simp add: unpack_H_def be_uint_def)
  have B: "read_binary (CHR 0x00 # CHR 0x00 # s) = Raise (ParseError UnexpectedEndOfStream)"
    by (simp add: read_binary_def r2 z)
  show ?thesis
    by (simp add: r2 z B truthy_str_def new_Reply_def)
qed

end
